theory Spec2Isabelle
  imports Main
begin

section \<open>Data model\<close>

text \<open>
  The analyser of \<^verbatim>\<open>find_flips.py\<close> reads versions, builds and tasks that the
  Evergreen API client hands to it. Each of them is a snapshot that is never
  mutated, so each becomes a record of the attributes and method results the
  code reads. A field shared by two records is written with its record's name
  (\<open>Task.display_name\<close>, \<open>Build.display_name\<close>).

  \<open>is_success\<close> is the result of \<^verbatim>\<open>task.is_success()\<close>, \<open>get_tasks\<close> the result of
  \<^verbatim>\<open>build.get_tasks()\<close> and \<open>get_builds\<close> the result of \<^verbatim>\<open>version.get_builds()\<close>.
  A status is the client's status string; \<open>create_time\<close> and the look-back are
  points on a linear time axis (\<^verbatim>\<open>datetime\<close>), taken as integers.
\<close>

record Task =
  display_name :: string
  activated :: bool
  status :: string
  is_success :: bool

record Build =
  display_name :: string
  build_variant :: string
  get_tasks :: "Task list"

record Version =
  revision :: string
  create_time :: int
  get_builds :: "Build list"

record EvergreenApi =
  versions_by_project :: "string \<Rightarrow> Version list"

text \<open>The two named tuples of the module.\<close>

record FlipList =
  revision :: string
  flipped_tasks :: "(string \<times> string list) list"

record WorkItem =
  version :: Version
  version_prev :: Version
  version_next :: Version

text \<open>An exception that leaves a function is a value \<open>Inl e\<close> of its result.\<close>

datatype error = KeyError string

section \<open>Python dictionaries\<close>

text \<open>
  A \<^verbatim>\<open>dict\<close> keeps its items in insertion order and holds each key once: it is
  an association list with distinct keys. Storing under a key that is present
  replaces the value in place, storing under a new key appends an item.
\<close>

type_synonym ('k, 'v) dict = "('k \<times> 'v) list"

definition is_dict :: "('k, 'v) dict \<Rightarrow> bool" where
  "is_dict d = distinct (map fst d)"

fun dict_set :: "'k \<Rightarrow> 'v \<Rightarrow> ('k, 'v) dict \<Rightarrow> ('k, 'v) dict" where
  "dict_set k v [] = [(k, v)]"
| "dict_set k v (kv # d) =
     (if fst kv = k then (fst kv, v) # d else kv # dict_set k v d)"

text \<open>A dictionary comprehension stores its items one after the other.\<close>

definition dict_comp :: "('k \<times> 'v) list \<Rightarrow> ('k, 'v) dict" where
  "dict_comp kvs = fold (\<lambda>kv d. dict_set (fst kv) (snd kv) d) kvs []"

text \<open>\<^verbatim>\<open>d.get(k)\<close>: the value under \<open>k\<close>, or \<^verbatim>\<open>None\<close>.\<close>

definition dict_get :: "('k, 'v) dict \<Rightarrow> 'k \<Rightarrow> 'v option" where
  "dict_get d k = map_of d k"

definition dict_keys :: "('k, 'v) dict \<Rightarrow> 'k set" where
  "dict_keys d = fst ` set d"

text \<open>
  Truth-value testing of the built-in values that the dictionaries of the
  module's tests hold: a string, a list, a set and a dictionary are true
  exactly when they are not empty.
\<close>

datatype pyval =
    PyStr string
  | PyList "pyval list"
  | PySet "pyval list"
  | PyDict "(pyval \<times> pyval) list"

fun truthy :: "pyval \<Rightarrow> bool" where
  "truthy (PyStr s) = (s \<noteq> [])"
| "truthy (PyList xs) = (xs \<noteq> [])"
| "truthy (PySet xs) = (xs \<noteq> [])"
| "truthy (PyDict kvs) = (kvs \<noteq> [])"

text \<open>The truth value of a list of task names.\<close>

definition list_truthy :: "'a list \<Rightarrow> bool" where
  "list_truthy xs = (xs \<noteq> [])"

text \<open>\<^verbatim>\<open>s.startswith(p)\<close>\<close>

definition startswith :: "string \<Rightarrow> string \<Rightarrow> bool" where
  "startswith s p = (take (length p) s = p)"

section \<open>The functions of \<^verbatim>\<open>find_flips.py\<close>\<close>

text \<open>
  \<^verbatim>\<open>{k: v for k, v in d.items() if v}\<close>. The test \<^verbatim>\<open>if v\<close> is the truth value
  of \<open>v\<close>, which depends on the type of the values; the model takes it as the
  argument \<open>tv\<close>.
\<close>

definition filter_empty_values :: "('v \<Rightarrow> bool) \<Rightarrow> ('k, 'v) dict \<Rightarrow> ('k, 'v) dict" where
  "filter_empty_values tv d = dict_comp (filter (\<lambda>kv. tv (snd kv)) d)"

definition filter_builds :: "Build \<Rightarrow> bool" where
  "filter_builds build =
     (if startswith (Build.display_name build) ''!'' then True else False)"

definition create_task_map :: "Task list \<Rightarrow> (string, Task) dict" where
  "create_task_map tasks = dict_comp (map (\<lambda>task. (Task.display_name task, task)) tasks)"

text \<open>
  A task object is always true, so \<^verbatim>\<open>not task_prev\<close> holds exactly when the
  lookup gave \<^verbatim>\<open>None\<close>.
\<close>

definition is_task_a_flip :: "Task \<Rightarrow> (string, Task) dict \<Rightarrow> (string, Task) dict \<Rightarrow> bool" where
  "is_task_a_flip task tasks_prev tasks_next =
     (if activated task \<and> \<not> is_success task then
        (case dict_get tasks_prev (Task.display_name task) of
           None \<Rightarrow> False
         | Some task_prev \<Rightarrow>
             if status task_prev \<noteq> status task then False
             else
               (case dict_get tasks_next (Task.display_name task) of
                  None \<Rightarrow> False
                | Some task_next \<Rightarrow>
                    if status task_next = status task then False else True))
      else False)"

text \<open>
  Modelled from the spec: \<^verbatim>\<open>Version.build_by_variant(name) -> Build\<close> belongs
  to the Evergreen API client, whose code is not in the repository. It gives
  the build of the version whose variant is \<open>name\<close>. Its result is a build, so
  for a version without such a build the lookup has nothing to return and
  fails (the client looks the name up in the version's variant table).
\<close>

definition build_by_variant :: "Version \<Rightarrow> string \<Rightarrow> error + Build" where
  "build_by_variant v name =
     (case find (\<lambda>b. build_variant b = name) (get_builds v) of
        None \<Rightarrow> Inl (KeyError name)
      | Some b \<Rightarrow> Inr b)"

definition flips_for_build :: "Build \<Rightarrow> Version \<Rightarrow> Version \<Rightarrow> error + string list" where
  "flips_for_build build v_prev v_next =
     (case build_by_variant v_prev (build_variant build) of
        Inl e \<Rightarrow> Inl e
      | Inr build_prev \<Rightarrow>
          (case build_by_variant v_next (build_variant build) of
             Inl e \<Rightarrow> Inl e
           | Inr build_next \<Rightarrow>
               (let tasks = get_tasks build;
                    tasks_prev = create_task_map (get_tasks build_prev);
                    tasks_next = create_task_map (get_tasks build_next)
                in Inr (map Task.display_name
                         (filter (\<lambda>task. is_task_a_flip task tasks_prev tasks_next) tasks)))))"

text \<open>
  A comprehension whose element expression may raise: the elements are
  evaluated in order and the first exception ends the evaluation.
\<close>

fun collect :: "('a \<Rightarrow> error + 'b) \<Rightarrow> 'a list \<Rightarrow> error + 'b list" where
  "collect f [] = Inr []"
| "collect f (x # xs) =
     (case f x of
        Inl e \<Rightarrow> Inl e
      | Inr y \<Rightarrow> (case collect f xs of Inl e \<Rightarrow> Inl e | Inr ys \<Rightarrow> Inr (y # ys)))"

definition flips_for_version :: "WorkItem \<Rightarrow> error + FlipList" where
  "flips_for_version work_item =
     (let v = version work_item;
          v_prev = version_prev work_item;
          v_next = version_next work_item;
          builds = filter filter_builds (get_builds v)
      in case collect (\<lambda>b. case flips_for_build b v_prev v_next of
                              Inl e \<Rightarrow> Inl e
                            | Inr names \<Rightarrow> Inr (build_variant b, names)) builds of
           Inl e \<Rightarrow> Inl e
         | Inr items \<Rightarrow>
             Inr \<lparr>FlipList.revision = Version.revision v,
                  flipped_tasks = filter_empty_values list_truthy (dict_comp items)\<rparr>)"

text \<open>
  \<^verbatim>\<open>windowed_iter(src, 3)\<close>: the triples of neighbours of the sequence, in
  order; a sequence of fewer than three elements has none.
\<close>

fun windowed_iter :: "'a list \<Rightarrow> ('a \<times> 'a \<times> 'a) list" where
  "windowed_iter (a # b # c # xs) = (a, b, c) # windowed_iter (b # c # xs)"
| "windowed_iter xs = []"

text \<open>
  The loop of \<^verbatim>\<open>find\<close> over the windows: it appends one job per window and
  leaves at the \<^verbatim>\<open>break\<close>.
\<close>

fun schedule :: "int \<Rightarrow> (Version \<times> Version \<times> Version) list \<Rightarrow> WorkItem list" where
  "schedule look_back [] = []"
| "schedule look_back ((v_prev, v, v_next) # ws) =
     (if create_time v < look_back then []
      else \<lparr>version = v, version_prev = v_prev, version_next = v_next\<rparr>
             # schedule look_back ws)"

text \<open>
  \<^verbatim>\<open>find\<close>, named \<open>find_flips\<close> here because \<open>find\<close> is a list function of
  HOL. The version iterator is the list of the versions it yields. The jobs are
  pure, so the pool's threads do not change what \<^verbatim>\<open>job.result()\<close> gives: the
  job's value, or its exception raised again. The results are read in the
  order of submission. Logging is left out.
\<close>

definition find_flips :: "string \<Rightarrow> int \<Rightarrow> EvergreenApi \<Rightarrow> nat \<Rightarrow> error + (string, (string, string list) dict) dict" where
  "find_flips project look_back evg_api n_threads =
     (let version_iterator = versions_by_project evg_api project;
          jobs = schedule look_back (windowed_iter version_iterator)
      in case collect flips_for_version jobs of
           Inl e \<Rightarrow> Inl e
         | Inr results \<Rightarrow>
             Inr (dict_comp (map (\<lambda>r. (FlipList.revision r, flipped_tasks r))
                               (filter (\<lambda>r. flipped_tasks r \<noteq> []) results))))"

section \<open>Example histories\<close>

text \<open>
  Concrete tasks, builds and versions on which the theorems below are run. An
  example task is activated, and it is successful exactly when its status is
  \<open>''success''\<close>. An example build has the two tasks \<open>A\<close> and \<open>B\<close>.
\<close>

definition ex_task :: "string \<Rightarrow> string \<Rightarrow> Task" where
  "ex_task name st =
     \<lparr>Task.display_name = name, activated = True, status = st,
      is_success = (st = ''success'')\<rparr>"

definition ex_build :: "string \<Rightarrow> string \<Rightarrow> string \<Rightarrow> string \<Rightarrow> Build" where
  "ex_build dn variant st_a st_b =
     \<lparr>Build.display_name = dn, build_variant = variant,
      get_tasks = [ex_task ''A'' st_a, ex_task ''B'' st_b]\<rparr>"

definition ex_version :: "string \<Rightarrow> int \<Rightarrow> Build list \<Rightarrow> Version" where
  "ex_version r t bs = \<lparr>Version.revision = r, create_time = t, get_builds = bs\<rparr>"

definition ex_api :: "Version list \<Rightarrow> EvergreenApi" where
  "ex_api vs = \<lparr>versions_by_project = (\<lambda>project. vs)\<rparr>"

text \<open>
  Three versions with one build of variant \<open>linux\<close> each, whose display name is
  \<open>dn\<close>: \<open>A\<close> fails, fails, passes and \<open>B\<close> fails, passes, passes. The version
  in the middle has revision \<open>abc123\<close> and was created at 20.
\<close>

definition linux_prev :: "string \<Rightarrow> Version" where
  "linux_prev dn = ex_version ''aaa111'' 30 [ex_build dn ''linux'' ''failed'' ''failed'']"

definition linux_cur :: "string \<Rightarrow> Version" where
  "linux_cur dn = ex_version ''abc123'' 20 [ex_build dn ''linux'' ''failed'' ''success'']"

definition linux_next :: "string \<Rightarrow> Version" where
  "linux_next dn = ex_version ''ccc333'' 10 [ex_build dn ''linux'' ''success'' ''success'']"

definition linux_history :: "string \<Rightarrow> Version list" where
  "linux_history dn = [linux_prev dn, linux_cur dn, linux_next dn]"

definition linux_item :: "string \<Rightarrow> WorkItem" where
  "linux_item dn =
     \<lparr>version = linux_cur dn, version_prev = linux_prev dn, version_next = linux_next dn\<rparr>"

text \<open>
  Three versions with two builds each, \<open>!windows-debug\<close> and \<open>linux\<close>; in both
  builds \<open>A\<close> fails, fails, passes and \<open>B\<close> always passes.
\<close>

definition two_build_version :: "string \<Rightarrow> int \<Rightarrow> string \<Rightarrow> Version" where
  "two_build_version r t st_a =
     ex_version r t
       [ex_build ''!windows-debug'' ''windows-debug'' st_a ''success'',
        ex_build ''linux'' ''linux'' st_a ''success'']"

definition two_build_history :: "Version list" where
  "two_build_history =
     [two_build_version ''aaa111'' 30 ''failed'',
      two_build_version ''abc123'' 20 ''failed'',
      two_build_version ''ccc333'' 10 ''success'']"

definition two_build_item :: WorkItem where
  "two_build_item =
     \<lparr>version = two_build_version ''abc123'' 20 ''failed'',
      version_prev = two_build_version ''aaa111'' 30 ''failed'',
      version_next = two_build_version ''ccc333'' 10 ''success''\<rparr>"

text \<open>
  The \<open>linux\<close> history with the display name \<open>!linux\<close>, where the first version
  has lost its build.
\<close>

definition missing_build_history :: "Version list" where
  "missing_build_history =
     [ex_version ''aaa111'' 30 [], linux_cur ''!linux'', linux_next ''!linux'']"

definition missing_build_item :: WorkItem where
  "missing_build_item =
     \<lparr>version = linux_cur ''!linux'', version_prev = ex_version ''aaa111'' 30 [],
      version_next = linux_next ''!linux''\<rparr>"

text \<open>Four versions, created at 40, 30, 20 and 10, without builds.\<close>

definition four_versions :: "Version list" where
  "four_versions =
     [ex_version ''r4'' 40 [], ex_version ''r3'' 30 [],
      ex_version ''r2'' 20 [], ex_version ''r1'' 10 []]"

text \<open>The dictionary of the module's test of the empty-value filter.\<close>

definition test_dict :: "(string, pyval) dict" where
  "test_dict =
     [(''key1'', PyDict []), (''key2'', PyStr ''something''),
      (''key3'', PyList []), (''key4'', PySet [PyStr ''another things''])]"

lemmas ex_defs =
  ex_task_def ex_build_def ex_version_def ex_api_def linux_prev_def linux_cur_def
  linux_next_def linux_history_def linux_item_def two_build_version_def
  two_build_history_def two_build_item_def missing_build_history_def
  missing_build_item_def four_versions_def test_dict_def

lemmas model_defs =
  find_flips_def flips_for_version_def flips_for_build_def build_by_variant_def
  create_task_map_def is_task_a_flip_def filter_builds_def filter_empty_values_def
  startswith_def list_truthy_def dict_comp_def dict_get_def dict_keys_def is_dict_def

section \<open>Dictionaries: stores and comprehensions\<close>

lemma map_of_dict_set: "map_of (dict_set k v d) = (map_of d)(k \<mapsto> v)"
  by (induction d) (auto simp: fun_eq_iff)

lemma keys_dict_set: "fst ` set (dict_set k v d) = insert k (fst ` set d)"
  by (induction d) auto

lemma distinct_dict_set:
  "distinct (map fst d) \<Longrightarrow> distinct (map fst (dict_set k v d))"
  by (induction d) (auto simp: keys_dict_set)

lemma set_dict_set: "set (dict_set k v d) \<subseteq> insert (k, v) (set d)"
  by (induction d) auto

lemma dict_set_fresh: "k \<notin> fst ` set d \<Longrightarrow> dict_set k v d = d @ [(k, v)]"
  by (induction d) auto

lemma distinct_fold_dict_set:
  "distinct (map fst acc) \<Longrightarrow>
   distinct (map fst (fold (\<lambda>kv d. dict_set (fst kv) (snd kv) d) kvs acc))"
  by (induction kvs arbitrary: acc) (auto simp: distinct_dict_set)

lemma set_fold_dict_set:
  "set (fold (\<lambda>kv d. dict_set (fst kv) (snd kv) d) kvs acc) \<subseteq> set kvs \<union> set acc"
proof (induction kvs arbitrary: acc)
  case Nil
  show ?case by simp
next
  case (Cons kv kvs)
  have "set (dict_set (fst kv) (snd kv) acc) \<subseteq> insert kv (set acc)"
    using set_dict_set [of "fst kv" "snd kv" acc] by simp
  with Cons [of "dict_set (fst kv) (snd kv) acc"] show ?case by auto
qed

lemma map_of_fold_dict_set:
  "map_of (fold (\<lambda>kv d. dict_set (fst kv) (snd kv) d) kvs acc) = map_of acc ++ map_of (rev kvs)"
  by (induction kvs arbitrary: acc) (auto simp: map_of_dict_set fun_eq_iff map_add_def split: option.splits)

lemma fold_dict_set_distinct:
  "distinct (map fst (acc @ kvs)) \<Longrightarrow>
   fold (\<lambda>kv d. dict_set (fst kv) (snd kv) d) kvs acc = acc @ kvs"
proof (induction kvs arbitrary: acc)
  case Nil
  show ?case by simp
next
  case (Cons kv kvs)
  from Cons.prems have fresh: "fst kv \<notin> fst ` set acc" by auto
  from Cons.prems have "distinct (map fst ((acc @ [kv]) @ kvs))" by simp
  from Cons.IH [OF this] fresh show ?case by (simp add: dict_set_fresh)
qed

lemma is_dict_dict_comp: "is_dict (dict_comp kvs)"
  by (simp add: is_dict_def dict_comp_def distinct_fold_dict_set)

lemma set_dict_comp: "set (dict_comp kvs) \<subseteq> set kvs"
  using set_fold_dict_set [of kvs "[]"] by (simp add: dict_comp_def)

lemma dict_comp_of_dict: "is_dict d \<Longrightarrow> dict_comp d = d"
  using fold_dict_set_distinct [of "[]" d] by (simp add: dict_comp_def is_dict_def)

lemma dict_get_dict_comp: "dict_get (dict_comp kvs) k = map_of (rev kvs) k"
  by (simp add: dict_get_def dict_comp_def map_of_fold_dict_set)

lemma is_dict_filter: "is_dict d \<Longrightarrow> is_dict (filter P d)"
  by (simp add: is_dict_def distinct_map_filter)

lemma filter_empty_values_filter:
  "is_dict d \<Longrightarrow> filter_empty_values tv d = filter (\<lambda>kv. tv (snd kv)) d"
  by (simp add: filter_empty_values_def dict_comp_of_dict is_dict_filter)

lemma dict_get_is_dict: "is_dict d \<Longrightarrow> dict_get d k = Some v \<longleftrightarrow> (k, v) \<in> set d"
  by (simp add: is_dict_def dict_get_def)

lemma map_of_unique:
  assumes "(k, v) \<in> set kvs" and "\<And>v'. (k, v') \<in> set kvs \<Longrightarrow> v' = v"
  shows "map_of kvs k = Some v"
proof (cases "map_of kvs k")
  case None
  with assms(1) show ?thesis by (force simp: map_of_eq_None_iff)
next
  case (Some v')
  then have "(k, v') \<in> set kvs" by (rule map_of_SomeD)
  with assms(2) Some show ?thesis by simp
qed


section \<open>The empty-value filter\<close>

text \<open>
  C9. For every dictionary \<open>D\<close>, the keys of the filtered dictionary are the
  keys of \<open>D\<close> whose value is true, and each of them keeps its value; this
  holds for every truth test \<open>tv\<close>. With the truth test of the built-in values,
  a key whose value is an empty dictionary or an empty list is removed, and a
  key whose value is a non-empty string, list or set is kept.
\<close>

theorem filter_empty_values_keeps_truthy:
  assumes "is_dict D"
  shows "dict_keys (filter_empty_values tv D) = {k. \<exists>v. dict_get D k = Some v \<and> tv v}
    \<and> (\<forall>k \<in> dict_keys (filter_empty_values tv D).
          dict_get (filter_empty_values tv D) k = dict_get D k)
    \<and> (\<forall>k. dict_get D k = Some (PyDict []) \<or> dict_get D k = Some (PyList [])
          \<longrightarrow> k \<notin> dict_keys (filter_empty_values truthy D))
    \<and> (\<forall>k s xs. (s \<noteq> [] \<and> dict_get D k = Some (PyStr s))
             \<or> (xs \<noteq> [] \<and> (dict_get D k = Some (PyList xs) \<or> dict_get D k = Some (PySet xs)))
          \<longrightarrow> k \<in> dict_keys (filter_empty_values truthy D))"
proof -
  have keys: "dict_keys (filter_empty_values t D) = {k. \<exists>v. dict_get D k = Some v \<and> t v}" for t
    using assms by (force simp: filter_empty_values_filter dict_keys_def dict_get_is_dict)
  have vals: "dict_get (filter_empty_values tv D) k = dict_get D k"
    if "k \<in> dict_keys (filter_empty_values tv D)" for k
  proof -
    from that obtain v where v: "(k, v) \<in> set D" "tv v"
      using assms by (auto simp: filter_empty_values_filter dict_keys_def)
    then have "dict_get (filter (\<lambda>kv. tv (snd kv)) D) k = Some v"
      using assms by (simp add: dict_get_is_dict is_dict_filter)
    moreover from v have "dict_get D k = Some v"
      using assms by (simp add: dict_get_is_dict)
    ultimately show ?thesis using assms by (simp add: filter_empty_values_filter)
  qed
  show ?thesis
    apply (intro conjI)
    apply (rule keys)
    using vals apply blast
    apply (auto simp: keys)
    done
qed


theorem filter_empty_values_keeps_truthy_witness:
  "is_dict test_dict
   \<and> filter_empty_values truthy test_dict =
       [(''key2'', PyStr ''something''), (''key4'', PySet [PyStr ''another things''])]
   \<and> dict_keys (filter_empty_values truthy test_dict) = {''key2'', ''key4''}
   \<and> dict_get (filter_empty_values truthy test_dict) ''key2'' = dict_get test_dict ''key2''
   \<and> dict_get test_dict ''key1'' = Some (PyDict [])
   \<and> ''key1'' \<notin> dict_keys (filter_empty_values truthy test_dict)
   \<and> dict_get test_dict ''key4'' = Some (PySet [PyStr ''another things''])
   \<and> ''key4'' \<in> dict_keys (filter_empty_values truthy test_dict)"
  using filter_empty_values_keeps_truthy [where D = test_dict and tv = truthy]
  by (simp add: model_defs ex_defs)

section \<open>The flip predicate\<close>

text \<open>
  C3. A task that is activated and not successful, whose entry in the previous
  version's task map has the task's status and whose entry in the next
  version's task map has another status, is a flip.
\<close>

theorem is_task_a_flip_persisted_then_changed:
  assumes "activated task" and "\<not> is_success task"
    and "dict_get tasks_prev (Task.display_name task) = Some task_prev"
    and "status task_prev = status task"
    and "dict_get tasks_next (Task.display_name task) = Some task_next"
    and "status task_next \<noteq> status task"
  shows "is_task_a_flip task tasks_prev tasks_next"
  using assms by (simp add: is_task_a_flip_def)

theorem is_task_a_flip_persisted_then_changed_witness:
  "is_task_a_flip (ex_task ''A'' ''failed'')
     (create_task_map [ex_task ''A'' ''failed'', ex_task ''B'' ''failed''])
     (create_task_map [ex_task ''A'' ''success'', ex_task ''B'' ''success''])"
  using is_task_a_flip_persisted_then_changed
    [of "ex_task ''A'' ''failed''"
        "create_task_map [ex_task ''A'' ''failed'', ex_task ''B'' ''failed'']"
        "ex_task ''A'' ''failed''"
        "create_task_map [ex_task ''A'' ''success'', ex_task ''B'' ''success'']"
        "ex_task ''A'' ''success''"]
  by (simp add: ex_task_def create_task_map_def dict_comp_def dict_get_def)

text \<open>
  C4. A task that is not activated, or that is successful, is not a flip,
  whatever its status and whatever the two task maps hold.
\<close>

theorem is_task_a_flip_inactive_or_successful:
  assumes "\<not> activated task \<or> is_success task"
  shows "\<not> is_task_a_flip task tasks_prev tasks_next"
  using assms by (auto simp: is_task_a_flip_def)

theorem is_task_a_flip_inactive_or_successful_witness:
  "\<not> is_task_a_flip (ex_task ''B'' ''success'')
       (create_task_map [ex_task ''B'' ''success''])
       (create_task_map [ex_task ''B'' ''failed''])
   \<and> \<not> is_task_a_flip ((ex_task ''A'' ''failed'')\<lparr>activated := False\<rparr>)
       (create_task_map [ex_task ''A'' ''failed''])
       (create_task_map [ex_task ''A'' ''success''])"
  using is_task_a_flip_inactive_or_successful
      [of "ex_task ''B'' ''success''"
          "create_task_map [ex_task ''B'' ''success'']"
          "create_task_map [ex_task ''B'' ''failed'']"]
    is_task_a_flip_inactive_or_successful
      [of "(ex_task ''A'' ''failed'')\<lparr>activated := False\<rparr>"
          "create_task_map [ex_task ''A'' ''failed'']"
          "create_task_map [ex_task ''A'' ''success'']"]
  by (simp add: ex_task_def)

text \<open>
  C5. An activated task that is not successful is not a flip when the previous
  version's task map has no entry under its display name, or has one with
  another status; the next version's task map does not matter.
\<close>

theorem is_task_a_flip_needs_equal_previous:
  assumes "activated task" and "\<not> is_success task"
    and "dict_get tasks_prev (Task.display_name task) = None
         \<or> (\<exists>task_prev. dict_get tasks_prev (Task.display_name task) = Some task_prev
                \<and> status task_prev \<noteq> status task)"
  shows "\<not> is_task_a_flip task tasks_prev tasks_next"
  using assms by (auto simp: is_task_a_flip_def)

theorem is_task_a_flip_needs_equal_previous_witness:
  "\<not> is_task_a_flip (ex_task ''A'' ''failed'')
       (create_task_map [ex_task ''B'' ''failed''])
       (create_task_map [ex_task ''A'' ''success''])
   \<and> \<not> is_task_a_flip (ex_task ''A'' ''failed'')
       (create_task_map [ex_task ''A'' ''success''])
       (create_task_map [ex_task ''A'' ''success''])"
  using is_task_a_flip_needs_equal_previous
      [of "ex_task ''A'' ''failed''"
          "create_task_map [ex_task ''B'' ''failed'']"
          "create_task_map [ex_task ''A'' ''success'']"]
    is_task_a_flip_needs_equal_previous
      [of "ex_task ''A'' ''failed''"
          "create_task_map [ex_task ''A'' ''success'']"
          "create_task_map [ex_task ''A'' ''success'']"]
  by (simp add: ex_task_def create_task_map_def dict_comp_def dict_get_def)

text \<open>
  C6. An activated task that is not successful and whose entry in the previous
  version's task map has the task's status is not a flip when the next
  version's task map has no entry under its display name, or has one with the
  task's status.
\<close>

theorem is_task_a_flip_needs_changed_next:
  assumes "activated task" and "\<not> is_success task"
    and "dict_get tasks_prev (Task.display_name task) = Some task_prev"
    and "status task_prev = status task"
    and "dict_get tasks_next (Task.display_name task) = None
         \<or> (\<exists>task_next. dict_get tasks_next (Task.display_name task) = Some task_next
                \<and> status task_next = status task)"
  shows "\<not> is_task_a_flip task tasks_prev tasks_next"
  using assms by (auto simp: is_task_a_flip_def)

theorem is_task_a_flip_needs_changed_next_witness:
  "\<not> is_task_a_flip (ex_task ''A'' ''failed'')
       (create_task_map [ex_task ''A'' ''failed''])
       (create_task_map [ex_task ''B'' ''success''])
   \<and> \<not> is_task_a_flip (ex_task ''A'' ''failed'')
       (create_task_map [ex_task ''A'' ''failed''])
       (create_task_map [ex_task ''A'' ''failed''])"
  using is_task_a_flip_needs_changed_next
      [of "ex_task ''A'' ''failed''"
          "create_task_map [ex_task ''A'' ''failed'']"
          "ex_task ''A'' ''failed''"
          "create_task_map [ex_task ''B'' ''success'']"]
    is_task_a_flip_needs_changed_next
      [of "ex_task ''A'' ''failed''"
          "create_task_map [ex_task ''A'' ''failed'']"
          "ex_task ''A'' ''failed''"
          "create_task_map [ex_task ''A'' ''failed'']"]
  by (simp add: ex_task_def create_task_map_def dict_comp_def dict_get_def)

section \<open>Which builds are analysed\<close>

lemma filter_builds_iff:
  "filter_builds build \<longleftrightarrow> (\<exists>rest. Build.display_name build = CHR ''!'' # rest)"
  by (cases "Build.display_name build") (auto simp: filter_builds_def startswith_def)


lemma collect_Inr_all2:
  "collect f xs = Inr ys \<Longrightarrow> list_all2 (\<lambda>x y. f x = Inr y) xs ys"
  by (induction xs arbitrary: ys) (auto split: sum.splits)

lemma collect_Inl:
  "x \<in> set xs \<Longrightarrow> f x = Inl e \<Longrightarrow> \<exists>e'. collect f xs = Inl e'"
  by (induction xs) (auto split: sum.splits)

lemma list_all2_left:
  "list_all2 P xs ys \<Longrightarrow> x \<in> set xs \<Longrightarrow> \<exists>y \<in> set ys. P x y"
  by (induction rule: list_all2_induct) auto

lemma list_all2_right:
  "list_all2 P xs ys \<Longrightarrow> y \<in> set ys \<Longrightarrow> \<exists>x \<in> set xs. P x y"
  by (induction rule: list_all2_induct) auto

lemma flips_for_version_Inr:
  assumes "flips_for_version work_item = Inr fl"
  obtains items where
    "list_all2 (\<lambda>b kv. fst kv = build_variant b
        \<and> flips_for_build b (version_prev work_item) (version_next work_item) = Inr (snd kv))
       (filter filter_builds (get_builds (version work_item))) items"
    and "flipped_tasks fl = filter (\<lambda>kv. snd kv \<noteq> []) (dict_comp items)"
proof -
  let ?g = "\<lambda>b. case flips_for_build b (version_prev work_item) (version_next work_item) of
                  Inl e \<Rightarrow> Inl e | Inr names \<Rightarrow> Inr (build_variant b, names)"
  from assms obtain items where
    c: "collect ?g (filter filter_builds (get_builds (version work_item))) = Inr items"
    and f: "flipped_tasks fl = filter_empty_values list_truthy (dict_comp items)"
    by (auto simp: flips_for_version_def Let_def split: sum.splits)
  from collect_Inr_all2 [OF c]
  have "list_all2 (\<lambda>b kv. fst kv = build_variant b
        \<and> flips_for_build b (version_prev work_item) (version_next work_item) = Inr (snd kv))
       (filter filter_builds (get_builds (version work_item))) items"
    by (rule list_all2_mono) (auto split: sum.splits)
  moreover from f have "flipped_tasks fl = filter (\<lambda>kv. snd kv \<noteq> []) (dict_comp items)"
    by (simp add: filter_empty_values_filter is_dict_dict_comp list_truthy_def)
  ultimately show ?thesis by (rule that)
qed


text \<open>
  The build \<open>!windows-debug\<close> passes the filter and the build \<open>linux\<close> does not;
  in the history with both builds, where task \<open>A\<close> has the same outcomes in
  both, the result holds an entry of \<open>!windows-debug\<close> and none of \<open>linux\<close>.
\<close>

theorem marked_build_is_analysed_counterexample:
  "filter_builds (ex_build ''!windows-debug'' ''windows-debug'' ''failed'' ''success'')
   \<and> \<not> filter_builds (ex_build ''linux'' ''linux'' ''failed'' ''success'')
   \<and> flips_for_version two_build_item =
       Inr \<lparr>FlipList.revision = ''abc123'', flipped_tasks = [(''windows-debug'', [''A''])]\<rparr>
   \<and> find_flips ''p'' 15 (ex_api two_build_history) 16 =
       Inr [(''abc123'', [(''windows-debug'', [''A''])])]"
  by (simp add: model_defs ex_defs)

text \<open>
  C1, as the code has it. A build is analysed if and only if its display name
  starts with \<open>!\<close>:
  \<^item> \<open>filter_builds\<close> holds exactly for the display names that start with \<open>!\<close>;
  \<^item> the builds of the version whose display name does not start with \<open>!\<close> do
    not influence the result of the version: it is the result for the version
    without them;
  \<^item> every key of a version's flipped-task mapping is the variant of a build
    whose display name starts with \<open>!\<close>;
  \<^item> a build whose display name starts with \<open>!\<close> is analysed: when it is the
    only such build of its variant and has flipped tasks, the mapping holds
    them under its variant.
\<close>

theorem marked_builds_are_analysed:
  "(filter_builds build \<longleftrightarrow> (\<exists>rest. Build.display_name build = CHR ''!'' # rest))
   \<and> flips_for_version work_item =
       flips_for_version (work_item\<lparr>version := (version work_item)
         \<lparr>get_builds := filter (\<lambda>b. \<exists>rest. Build.display_name b = CHR ''!'' # rest)
                           (get_builds (version work_item))\<rparr>\<rparr>)
   \<and> (flips_for_version work_item = Inr fl
        \<longrightarrow> dict_keys (flipped_tasks fl) \<subseteq>
              build_variant ` {b \<in> set (get_builds (version work_item)).
                                \<exists>rest. Build.display_name b = CHR ''!'' # rest})
   \<and> (flips_for_version work_item = Inr fl
        \<and> build \<in> set (get_builds (version work_item))
        \<and> (\<exists>rest. Build.display_name build = CHR ''!'' # rest)
        \<and> (\<forall>b \<in> set (get_builds (version work_item)).
              (\<exists>rest. Build.display_name b = CHR ''!'' # rest)
              \<and> build_variant b = build_variant build \<longrightarrow> b = build)
        \<and> flips_for_build build (version_prev work_item) (version_next work_item) = Inr names
        \<and> names \<noteq> []
        \<longrightarrow> dict_get (flipped_tasks fl) (build_variant build) = Some names)"
proof (intro conjI impI)
  show "filter_builds build \<longleftrightarrow> (\<exists>rest. Build.display_name build = CHR ''!'' # rest)"
    by (rule filter_builds_iff)
next
  have "filter filter_builds (filter (\<lambda>b. \<exists>rest. Build.display_name b = CHR ''!'' # rest) bs)
          = filter filter_builds bs" for bs
    by (induction bs) (auto simp: filter_builds_iff)
  then show "flips_for_version work_item =
       flips_for_version (work_item\<lparr>version := (version work_item)
         \<lparr>get_builds := filter (\<lambda>b. \<exists>rest. Build.display_name b = CHR ''!'' # rest)
                           (get_builds (version work_item))\<rparr>\<rparr>)"
    by (simp add: flips_for_version_def Let_def split: sum.splits)
next
  assume "flips_for_version work_item = Inr fl"
  then obtain items where
    a: "list_all2 (\<lambda>b kv. fst kv = build_variant b
        \<and> flips_for_build b (version_prev work_item) (version_next work_item) = Inr (snd kv))
       (filter filter_builds (get_builds (version work_item))) items"
    and f: "flipped_tasks fl = filter (\<lambda>kv. snd kv \<noteq> []) (dict_comp items)"
    by (rule flips_for_version_Inr)
  show "dict_keys (flipped_tasks fl) \<subseteq>
              build_variant ` {b \<in> set (get_builds (version work_item)).
                                \<exists>rest. Build.display_name b = CHR ''!'' # rest}"
  proof
    fix k assume "k \<in> dict_keys (flipped_tasks fl)"
    then obtain kv where kv: "kv \<in> set items" "fst kv = k"
      using f set_dict_comp [of items] by (auto simp: dict_keys_def)
    from list_all2_right [OF a kv(1)] kv(2)
    obtain b where "b \<in> set (get_builds (version work_item))" "filter_builds b"
      "build_variant b = k"
      by auto
    then show "k \<in> build_variant ` {b \<in> set (get_builds (version work_item)).
                                \<exists>rest. Build.display_name b = CHR ''!'' # rest}"
      by (auto simp: filter_builds_iff)
  qed
next
  assume h: "flips_for_version work_item = Inr fl
        \<and> build \<in> set (get_builds (version work_item))
        \<and> (\<exists>rest. Build.display_name build = CHR ''!'' # rest)
        \<and> (\<forall>b \<in> set (get_builds (version work_item)).
              (\<exists>rest. Build.display_name b = CHR ''!'' # rest)
              \<and> build_variant b = build_variant build \<longrightarrow> b = build)
        \<and> flips_for_build build (version_prev work_item) (version_next work_item) = Inr names
        \<and> names \<noteq> []"
  from h have fv: "flips_for_version work_item = Inr fl"
    and mem: "build \<in> set (get_builds (version work_item))"
    and marked: "filter_builds build"
    and fb: "flips_for_build build (version_prev work_item) (version_next work_item) = Inr names"
    and ne: "names \<noteq> []"
    by (simp_all add: filter_builds_iff)
  from h have only: "b = build"
    if "b \<in> set (get_builds (version work_item))" and "filter_builds b"
      and "build_variant b = build_variant build" for b
    using that unfolding filter_builds_iff by blast
  from fv obtain items where
    a: "list_all2 (\<lambda>b kv. fst kv = build_variant b
        \<and> flips_for_build b (version_prev work_item) (version_next work_item) = Inr (snd kv))
       (filter filter_builds (get_builds (version work_item))) items"
    and f: "flipped_tasks fl = filter (\<lambda>kv. snd kv \<noteq> []) (dict_comp items)"
    by (rule flips_for_version_Inr)
  from mem marked have "build \<in> set (filter filter_builds (get_builds (version work_item)))"
    by simp
  from list_all2_left [OF a this] obtain kv where
    kv: "kv \<in> set items" "fst kv = build_variant build"
      "flips_for_build build (version_prev work_item) (version_next work_item) = Inr (snd kv)"
    by blast
  from kv(3) fb have "snd kv = names" by simp
  with kv(1,2) have in_items: "(build_variant build, names) \<in> set items"
    by (metis prod.collapse)
  have uniq: "v' = names" if "(build_variant build, v') \<in> set items" for v'
  proof -
    from list_all2_right [OF a that]
    obtain b where b: "b \<in> set (filter filter_builds (get_builds (version work_item)))"
      "build_variant b = build_variant build"
      "flips_for_build b (version_prev work_item) (version_next work_item) = Inr v'"
      by auto
    from b(1) have "b \<in> set (get_builds (version work_item))" and "filter_builds b"
      by simp_all
    from only [OF this b(2)] b(3) fb show ?thesis by simp
  qed
  have "map_of (rev items) (build_variant build) = Some names"
  proof (rule map_of_unique)
    show "(build_variant build, names) \<in> set (rev items)" using in_items by simp
  next
    fix v' assume "(build_variant build, v') \<in> set (rev items)"
    then show "v' = names" using uniq by simp
  qed
  then have "dict_get (dict_comp items) (build_variant build) = Some names"
    by (simp add: dict_get_dict_comp)
  then have "(build_variant build, names) \<in> set (dict_comp items)"
    by (simp add: dict_get_is_dict is_dict_dict_comp)
  with ne have "(build_variant build, names) \<in> set (filter (\<lambda>kv. snd kv \<noteq> []) (dict_comp items))"
    by simp
  then show "dict_get (flipped_tasks fl) (build_variant build) = Some names"
    by (simp only: f dict_get_is_dict [OF is_dict_filter [OF is_dict_dict_comp]])
qed


theorem marked_builds_are_analysed_witness:
  "filter_builds (ex_build ''!windows-debug'' ''windows-debug'' ''failed'' ''success'')
   \<and> flips_for_version two_build_item =
       Inr \<lparr>FlipList.revision = ''abc123'', flipped_tasks = [(''windows-debug'', [''A''])]\<rparr>
   \<and> ex_build ''!windows-debug'' ''windows-debug'' ''failed'' ''success''
         \<in> set (get_builds (version two_build_item))
   \<and> flips_for_build (ex_build ''!windows-debug'' ''windows-debug'' ''failed'' ''success'')
         (version_prev two_build_item) (version_next two_build_item) = Inr [''A'']
   \<and> dict_keys [(''windows-debug'', [''A''])] = {''windows-debug''}
   \<and> dict_get [(''windows-debug'', [''A''])] ''windows-debug'' = Some [''A'']"
  using marked_builds_are_analysed
    [where build = "ex_build ''!windows-debug'' ''windows-debug'' ''failed'' ''success''"
       and work_item = two_build_item
       and fl = "\<lparr>FlipList.revision = ''abc123'', flipped_tasks = [(''windows-debug'', [''A''])]\<rparr>"
       and names = "[''A'']"]
  by (simp add: model_defs ex_defs)

section \<open>The reports never hold an empty entry\<close>

text \<open>
  C8. In the flip list produced for a version no variant has an empty list of
  tasks, and in the mapping returned by \<open>find\<close> no revision has an empty
  mapping of variants.
\<close>

theorem no_empty_entries:
  "(flips_for_version work_item = Inr fl \<longrightarrow> (\<forall>kv \<in> set (flipped_tasks fl). snd kv \<noteq> []))
   \<and> (find_flips project look_back evg_api n_threads = Inr result
        \<longrightarrow> (\<forall>kv \<in> set result. snd kv \<noteq> []))"
proof (intro conjI impI ballI)
  fix kv
  assume "flips_for_version work_item = Inr fl" and kv: "kv \<in> set (flipped_tasks fl)"
  then obtain items where "flipped_tasks fl = filter_empty_values list_truthy (dict_comp items)"
    by (auto simp: flips_for_version_def Let_def split: sum.splits)
  with kv have "kv \<in> set (filter (\<lambda>kv. list_truthy (snd kv)) (dict_comp items))"
    using set_dict_comp [of "filter (\<lambda>kv. list_truthy (snd kv)) (dict_comp items)"]
    by (auto simp: filter_empty_values_def)
  then show "snd kv \<noteq> []" by (simp add: list_truthy_def)
next
  fix kv
  assume "find_flips project look_back evg_api n_threads = Inr result" and kv: "kv \<in> set result"
  then obtain results :: "FlipList list" where
    "result = dict_comp (map (\<lambda>r. (FlipList.revision r, flipped_tasks r))
                           (filter (\<lambda>r. flipped_tasks r \<noteq> []) results))"
    by (auto simp: find_flips_def Let_def split: sum.splits)
  with kv have "kv \<in> set (map (\<lambda>r. (FlipList.revision r, flipped_tasks r))
                           (filter (\<lambda>r. flipped_tasks r \<noteq> []) results))"
    using set_dict_comp by blast
  then show "snd kv \<noteq> []" by auto
qed


theorem no_empty_entries_witness:
  "flips_for_version (linux_item ''!linux'') =
     Inr \<lparr>FlipList.revision = ''abc123'', flipped_tasks = [(''linux'', [''A''])]\<rparr>
   \<and> find_flips ''p'' 15 (ex_api (linux_history ''!linux'')) 16 =
       Inr [(''abc123'', [(''linux'', [''A''])])]
   \<and> snd (''linux'', [''A'']) \<noteq> []
   \<and> snd (''abc123'', [(''linux'', [''A''])]) \<noteq> []"
  using no_empty_entries
    [where work_item = "linux_item ''!linux''"
       and fl = "\<lparr>FlipList.revision = ''abc123'', flipped_tasks = [(''linux'', [''A''])]\<rparr>"
       and project = "''p''" and look_back = 15
       and evg_api = "ex_api (linux_history ''!linux'')" and n_threads = 16
       and result = "[(''abc123'', [(''linux'', [''A''])])]"]
  by (simp add: model_defs ex_defs)

section \<open>A variant that is missing from a neighbour\<close>

lemma find_None_build:
  "\<forall>b \<in> set (get_builds v). build_variant b \<noteq> name \<Longrightarrow> build_by_variant v name = Inl (KeyError name)"
proof -
  assume "\<forall>b \<in> set (get_builds v). build_variant b \<noteq> name"
  then have "find (\<lambda>b. build_variant b = name) (get_builds v) = None"
    by (simp add: find_None_iff)
  then show ?thesis by (simp add: build_by_variant_def)
qed

lemma find_Some_build:
  assumes "b \<in> set (get_builds v)" and "build_variant b = name"
  shows "\<exists>b'. build_by_variant v name = Inr b'"
proof (cases "find (\<lambda>b. build_variant b = name) (get_builds v)")
  case None
  with assms show ?thesis by (auto simp: find_None_iff)
next
  case (Some b')
  then show ?thesis by (simp add: build_by_variant_def)
qed


text \<open>
  C10. When a scheduled work item has an analysed build whose variant has no
  build in the previous or in the next version, the lookup of that build
  fails, and the failure is the result of the per-build analysis, of the
  analysis of the version and of \<open>find\<close>: the variant is not reported as
  having no flips.
\<close>

theorem missing_build_aborts_find:
  assumes "work_item \<in> set (schedule look_back (windowed_iter (versions_by_project evg_api project)))"
    and "build \<in> set (get_builds (version work_item))"
    and "filter_builds build"
    and "(\<forall>b \<in> set (get_builds (version_prev work_item)). build_variant b \<noteq> build_variant build)
       \<or> (\<forall>b \<in> set (get_builds (version_next work_item)). build_variant b \<noteq> build_variant build)"
  shows "flips_for_build build (version_prev work_item) (version_next work_item)
           = Inl (KeyError (build_variant build))
     \<and> (\<exists>e. flips_for_version work_item = Inl e)
     \<and> (\<exists>e. find_flips project look_back evg_api n_threads = Inl e)"
proof -
  have b: "flips_for_build build (version_prev work_item) (version_next work_item)
           = Inl (KeyError (build_variant build))"
  proof (cases "\<forall>b \<in> set (get_builds (version_prev work_item)). build_variant b \<noteq> build_variant build")
    case True
    then show ?thesis by (simp add: flips_for_build_def find_None_build)
  next
    case False
    with assms(4) have "build_by_variant (version_next work_item) (build_variant build)
                          = Inl (KeyError (build_variant build))"
      by (simp add: find_None_build)
    moreover from False obtain bp where
      "build_by_variant (version_prev work_item) (build_variant build) = Inr bp"
      using find_Some_build by blast
    ultimately show ?thesis by (simp add: flips_for_build_def)
  qed
  have "build \<in> set (filter filter_builds (get_builds (version work_item)))"
    using assms(2,3) by simp
  from collect_Inl [OF this, of "\<lambda>b. case flips_for_build b (version_prev work_item) (version_next work_item) of
                              Inl e \<Rightarrow> Inl e
                            | Inr names \<Rightarrow> Inr (build_variant b, names)"] b
  have v: "\<exists>e. flips_for_version work_item = Inl e"
    by (auto simp: flips_for_version_def Let_def)
  then obtain e where e: "flips_for_version work_item = Inl e" ..
  from collect_Inl [of work_item _ flips_for_version e, OF assms(1) e]
  have "\<exists>e. find_flips project look_back evg_api n_threads = Inl e"
    by (auto simp: find_flips_def Let_def)
  with b v show ?thesis by blast
qed


theorem missing_build_aborts_find_witness:
  "missing_build_item
     \<in> set (schedule 15 (windowed_iter (versions_by_project (ex_api missing_build_history) ''p'')))
   \<and> ex_build ''!linux'' ''linux'' ''failed'' ''success''
       \<in> set (get_builds (version missing_build_item))
   \<and> filter_builds (ex_build ''!linux'' ''linux'' ''failed'' ''success'')
   \<and> get_builds (version_prev missing_build_item) = []
   \<and> flips_for_build (ex_build ''!linux'' ''linux'' ''failed'' ''success'')
         (version_prev missing_build_item) (version_next missing_build_item)
       = Inl (KeyError ''linux'')
   \<and> flips_for_version missing_build_item = Inl (KeyError ''linux'')
   \<and> find_flips ''p'' 15 (ex_api missing_build_history) 16 = Inl (KeyError ''linux'')"
  using missing_build_aborts_find
    [where work_item = missing_build_item and look_back = 15
       and evg_api = "ex_api missing_build_history" and project = "''p''"
       and build = "ex_build ''!linux'' ''linux'' ''failed'' ''success''"
       and n_threads = 16]
  by (simp add: model_defs ex_defs)

section \<open>The look-back\<close>








section \<open>The three-version scenario\<close>





end
